theory Spec2Isabelle
  imports Main "HOL-Library.Word"
begin

section \<open>The instance table of the Tcl wrapper facility\<close>

text \<open>
  A model of \<^verbatim>\<open>wrapInstanceTable.cxx\<close>: the table that maps the name of a wrapped
  object to the object and its type, the reverse table from object addresses to names,
  and the table of delete functions registered per type.
\<close>

subsection \<open>Data\<close>

text \<open>A \<^verbatim>\<open>void*\<close> and a pointer to a delete function are addresses.\<close>

type_synonym address = nat
type_synonym DeleteFunction = nat

text \<open>
  The table holds \<^verbatim>\<open>const Type*\<close>: a type representation is known by its address, and
  \<^verbatim>\<open>type->Name()\<close> is the only member the table reads.
\<close>

datatype Type = Type (Type_address: address) (Name: string)

text \<open>
  Modelled from the spec: the declaration of \<^verbatim>\<open>CvQualifiedType\<close> is not part of the
  sources at hand; it is a type together with its const/volatile qualification, and
  \<^verbatim>\<open>GetType()\<close> gives the unqualified type.
\<close>

datatype CvQualifiedType = CvQualifiedType (GetType: Type) (IsConst: bool) (IsVolatile: bool)

text \<open>\<^verbatim>\<open>Reference(object, type)\<close>, read by \<^verbatim>\<open>GetObject()\<close> and \<^verbatim>\<open>GetReferencedType()\<close>.\<close>

datatype Reference =
  Reference (Reference_GetObject: address) (Reference_GetReferencedType: CvQualifiedType)

text \<open>
  The two exceptions the table throws, and \<open>Foreign_exception\<close> for whatever code outside
  the table throws.
\<close>

datatype exception =
  UndefinedInstanceNameException string
| UndefinedObjectTypeException string
| Foreign_exception

text \<open>
  The calls that leave the table: a registered delete function applied to an object, and
  \<^verbatim>\<open>Tcl_DeleteCommand\<close> on the interpreter the table is attached to.
\<close>

datatype call =
  Call_DeleteFunction DeleteFunction address
| Call_Tcl_DeleteCommand string

text \<open>
  The members of \<^verbatim>\<open>InstanceTable\<close>. The three maps are \<^verbatim>\<open>std::map\<close>s. The counter
  \<^verbatim>\<open>m_TempNameNumber\<close> is printed with \<^verbatim>\<open>%x\<close>, which reads an \<^verbatim>\<open>unsigned int\<close>: 32 bits.
  In place of \<^verbatim>\<open>m_Interpreter\<close> the record keeps \<open>calls\<close>, the calls made so far to the
  interpreter and to delete functions, oldest first.
\<close>

record InstanceTable =
  m_TempNameNumber :: "32 word"
  m_InstanceMap :: "string \<rightharpoonup> Reference"
  m_DeleteFunctionMap :: "Type \<rightharpoonup> DeleteFunction"
  m_AddressToNameMap :: "address \<rightharpoonup> string"
  calls :: "call list"

text \<open>
  A member function either returns or throws; a C++ exception undoes nothing, so both
  outcomes carry the table as it is at that moment.
\<close>

datatype 'a outcome =
  Returns 'a InstanceTable
| Throws exception InstanceTable

fun table_of :: "'a outcome \<Rightarrow> InstanceTable" where
  "table_of (Returns _ s) = s"
| "table_of (Throws _ s) = s"

text \<open>
  What a registered delete function does, and what \<^verbatim>\<open>Tcl_DeleteCommand\<close> does (it runs the
  delete procedure of the command), is code outside the table. It is a parameter of the
  model: \<open>run c s\<close> is the outcome of making the call \<open>c\<close> when the table is \<open>s\<close>; the
  code called may call back into the table, and it may throw.
\<close>

type_synonym foreign = "call \<Rightarrow> InstanceTable \<Rightarrow> unit outcome"

subsection \<open>Member functions\<close>

text \<open>The constructor: empty maps, temporary object number zero.\<close>

definition InstanceTable_new :: InstanceTable where
  "InstanceTable_new =
     \<lparr>m_TempNameNumber = 0, m_InstanceMap = Map.empty, m_DeleteFunctionMap = Map.empty,
      m_AddressToNameMap = Map.empty, calls = []\<rparr>"

definition Exists :: "string \<Rightarrow> InstanceTable \<Rightarrow> bool" where
  "Exists name s = (m_InstanceMap s name \<noteq> None)"

definition CheckExists :: "string \<Rightarrow> InstanceTable \<Rightarrow> unit outcome" where
  "CheckExists name s =
     (if \<not> Exists name s then Throws (UndefinedInstanceNameException name) s
      else Returns () s)"

text \<open>
  \<^verbatim>\<open>name.c_str()\<close>, read by a C function: the characters before the first zero character.
\<close>

definition c_str :: "string \<Rightarrow> string" where
  "c_str str = takeWhile (\<lambda>c. c \<noteq> CHR 0x00) str"

text \<open>
  \<^verbatim>\<open>m_InstanceMap[name]\<close> is read only after \<open>CheckExists\<close> has returned, so the entry is
  there and \<open>the\<close> reads it. Each call that leaves the table is entered in \<open>calls\<close> and
  then made on the table as it is at that moment.
\<close>

definition DeleteObject :: "foreign \<Rightarrow> string \<Rightarrow> InstanceTable \<Rightarrow> unit outcome" where
  "DeleteObject run name s =
     (case CheckExists name s of
        Throws e s' \<Rightarrow> Throws e s'
      | Returns _ s0 \<Rightarrow>
          let type = GetType (Reference_GetReferencedType (the (m_InstanceMap s0 name)));
              object = Reference_GetObject (the (m_InstanceMap s0 name))
          in (case m_DeleteFunctionMap s0 type of
                None \<Rightarrow> Throws (UndefinedObjectTypeException (Name type)) s0
              | Some f \<Rightarrow>
                  let s1 = s0\<lparr>m_AddressToNameMap := (m_AddressToNameMap s0)(object := None)\<rparr>
                  in (case run (Call_DeleteFunction f object)
                                (s1\<lparr>calls := calls s1 @ [Call_DeleteFunction f object]\<rparr>) of
                        Throws e s' \<Rightarrow> Throws e s'
                      | Returns _ s2 \<Rightarrow>
                          let s3 = s2\<lparr>m_InstanceMap := (m_InstanceMap s2)(name := None)\<rparr>
                          in (case run (Call_Tcl_DeleteCommand (c_str name))
                                    (s3\<lparr>calls := calls s3 @ [Call_Tcl_DeleteCommand (c_str name)]\<rparr>) of
                                Throws e s' \<Rightarrow> Throws e s'
                              | Returns _ s4 \<Rightarrow> Returns () s4))))"

definition SetObject ::
  "foreign \<Rightarrow> string \<Rightarrow> address \<Rightarrow> CvQualifiedType \<Rightarrow> InstanceTable \<Rightarrow> unit outcome" where
  "SetObject run name object type s =
     (case (if Exists name s then DeleteObject run name s else Returns () s) of
        Throws e s' \<Rightarrow> Throws e s'
      | Returns _ s1 \<Rightarrow>
          let s2 = s1\<lparr>m_InstanceMap := (m_InstanceMap s1)(name \<mapsto> Reference object type)\<rparr>
          in Returns () (s2\<lparr>m_AddressToNameMap := (m_AddressToNameMap s2)(object \<mapsto> name)\<rparr>))"

definition GetEntry :: "string \<Rightarrow> InstanceTable \<Rightarrow> Reference outcome" where
  "GetEntry name s =
     (case CheckExists name s of
        Throws e s' \<Rightarrow> Throws e s'
      | Returns _ s' \<Rightarrow> Returns (the (m_InstanceMap s' name)) s')"

definition GetObject :: "string \<Rightarrow> InstanceTable \<Rightarrow> address outcome" where
  "GetObject name s =
     (case CheckExists name s of
        Throws e s' \<Rightarrow> Throws e s'
      | Returns _ s' \<Rightarrow> Returns (Reference_GetObject (the (m_InstanceMap s' name))) s')"

definition GetType_of :: "string \<Rightarrow> InstanceTable \<Rightarrow> CvQualifiedType outcome" where
  "GetType_of name s =
     (case CheckExists name s of
        Throws e s' \<Rightarrow> Throws e s'
      | Returns _ s' \<Rightarrow> Returns (Reference_GetReferencedType (the (m_InstanceMap s' name))) s')"

definition SetDeleteFunction :: "Type \<Rightarrow> DeleteFunction \<Rightarrow> InstanceTable \<Rightarrow> unit outcome" where
  "SetDeleteFunction type func s =
     Returns () (s\<lparr>m_DeleteFunctionMap := (m_DeleteFunctionMap s)(type \<mapsto> func)\<rparr>)"

text \<open>
  The conversion \<^verbatim>\<open>%x\<close>: the digits of the number in base sixteen, lower case, no leading
  zero, one digit for zero.
\<close>

definition hex_digit :: "nat \<Rightarrow> char" where
  "hex_digit d = ''0123456789abcdef'' ! d"

fun hex :: "nat \<Rightarrow> string" where
  "hex n = (if n < 16 then [hex_digit n] else hex (n div 16) @ [hex_digit (n mod 16)])"

declare hex.simps [simp del]

text \<open>
  \<^verbatim>\<open>sprintf(tempName, "__temp%x", n)\<close>: the characters it produces, and the number of
  bytes it writes into \<^verbatim>\<open>tempName\<close>, the terminating zero included.
\<close>

definition sprintf_temp :: "32 word \<Rightarrow> string" where
  "sprintf_temp n = ''__temp'' @ hex (unat n)"

definition sprintf_temp_written :: "32 word \<Rightarrow> nat" where
  "sprintf_temp_written n = length (sprintf_temp n) + 1"

definition tempName_size :: nat where
  "tempName_size = 15"

definition CreateTemporary ::
  "foreign \<Rightarrow> address \<Rightarrow> CvQualifiedType \<Rightarrow> InstanceTable \<Rightarrow> string outcome" where
  "CreateTemporary run object type s =
     (let tempName = sprintf_temp (m_TempNameNumber s);
          s1 = s\<lparr>m_TempNameNumber := m_TempNameNumber s + 1\<rparr>;
          name = tempName
      in (case SetObject run name object type s1 of
            Throws e s' \<Rightarrow> Throws e s'
          | Returns _ s2 \<Rightarrow> Returns name s2))"

text \<open>\<^verbatim>\<open>name.substr(0,6)\<close>: at most six characters from the start.\<close>

definition substr :: "string \<Rightarrow> nat \<Rightarrow> nat \<Rightarrow> string" where
  "substr str pos n = take n (drop pos str)"

definition DeleteIfTemporary :: "foreign \<Rightarrow> string \<Rightarrow> InstanceTable \<Rightarrow> unit outcome" where
  "DeleteIfTemporary run name s =
     (case CheckExists name s of
        Throws e s' \<Rightarrow> Throws e s'
      | Returns _ s' \<Rightarrow>
          if substr name 0 6 = ''__temp'' then DeleteObject run name s' else Returns () s')"

definition DeleteCallBack :: "foreign \<Rightarrow> address \<Rightarrow> InstanceTable \<Rightarrow> unit outcome" where
  "DeleteCallBack run object s =
     (case m_AddressToNameMap s object of
        Some name \<Rightarrow> DeleteObject run name s
      | None \<Rightarrow> Returns () s)"

subsection \<open>Code outside the table\<close>

text \<open>Calls that return and do not touch the table.\<close>

definition plain :: foreign where
  "plain c s = Returns () s"

text \<open>
  A delete function whose object, while it goes away, makes the callback of
  \<open>DeleteCallBack\<close> for itself (calls made from there behave as \<open>run\<close>);
  \<^verbatim>\<open>Tcl_DeleteCommand\<close> returns and does not touch the table.
\<close>

fun notifying :: "foreign \<Rightarrow> foreign" where
  "notifying run (Call_DeleteFunction f object) s = DeleteCallBack run object s"
| "notifying run (Call_Tcl_DeleteCommand cmdName) s = Returns () s"

text \<open>Calls that do not touch the table, whether they return or throw.\<close>

definition quiet :: "foreign \<Rightarrow> bool" where
  "quiet run = (\<forall>c s. table_of (run c s) = s)"


text \<open>No delete function throws.\<close>

definition deleters_return :: "foreign \<Rightarrow> bool" where
  "deleters_return run =
     (\<forall>f object s. \<exists>u s'. run (Call_DeleteFunction f object) s = Returns u s')"

text \<open>Delete functions that throw and do not touch the table.\<close>

fun throwing_delete :: foreign where
  "throwing_delete (Call_DeleteFunction f object) s = Throws Foreign_exception s"
| "throwing_delete (Call_Tcl_DeleteCommand cmdName) s = Returns () s"

subsection \<open>Sequences of calls\<close>

text \<open>
  The calls that change the table, and the table a sequence of them leaves when the code
  outside the table behaves as \<open>run\<close>; a call that throws leaves the table it had reached.
\<close>

datatype operation =
  Op_SetDeleteFunction Type DeleteFunction
| Op_SetObject string address CvQualifiedType
| Op_DeleteObject string
| Op_CreateTemporary address CvQualifiedType
| Op_DeleteIfTemporary string
| Op_DeleteCallBack address

fun perform :: "foreign \<Rightarrow> operation \<Rightarrow> InstanceTable \<Rightarrow> InstanceTable" where
  "perform run (Op_SetDeleteFunction type func) s = table_of (SetDeleteFunction type func s)"
| "perform run (Op_SetObject name object type) s = table_of (SetObject run name object type s)"
| "perform run (Op_DeleteObject name) s = table_of (DeleteObject run name s)"
| "perform run (Op_CreateTemporary object type) s = table_of (CreateTemporary run object type s)"
| "perform run (Op_DeleteIfTemporary name) s = table_of (DeleteIfTemporary run name s)"
| "perform run (Op_DeleteCallBack object) s = table_of (DeleteCallBack run object s)"

fun perform_all :: "foreign \<Rightarrow> operation list \<Rightarrow> InstanceTable \<Rightarrow> InstanceTable" where
  "perform_all run [] s = s"
| "perform_all run (x # xs) s = perform_all run xs (perform run x s)"

text \<open>
  No live name other than \<open>name\<close> holds the address \<open>object\<close>; \<open>no_reuse\<close> asks it of the
  address and name of a call that binds, \<open>no_reuse_all\<close> of every call of a sequence.
\<close>

definition held_only_by :: "address \<Rightarrow> string \<Rightarrow> InstanceTable \<Rightarrow> bool" where
  "held_only_by object name s =
     (\<forall>n r. m_InstanceMap s n = Some r \<and> Reference_GetObject r = object \<longrightarrow> n = name)"

fun no_reuse :: "operation \<Rightarrow> InstanceTable \<Rightarrow> bool" where
  "no_reuse (Op_SetObject name object type) s = held_only_by object name s"
| "no_reuse (Op_CreateTemporary object type) s =
     held_only_by object (sprintf_temp (m_TempNameNumber s)) s"
| "no_reuse _ s = True"

fun no_reuse_all :: "foreign \<Rightarrow> operation list \<Rightarrow> InstanceTable \<Rightarrow> bool" where
  "no_reuse_all run [] s = True"
| "no_reuse_all run (x # xs) s = (no_reuse x s \<and> no_reuse_all run xs (perform run x s))"

text \<open>
  The reverse map points only at names bound to that address; the two maps agree in both
  directions; no address is held by two names.
\<close>

definition reverse_sound :: "InstanceTable \<Rightarrow> bool" where
  "reverse_sound s =
     (\<forall>object name. m_AddressToNameMap s object = Some name \<longrightarrow>
        (\<exists>type. m_InstanceMap s name = Some (Reference object type)))"

definition maps_consistent :: "InstanceTable \<Rightarrow> bool" where
  "maps_consistent s =
     (\<forall>object name. (m_AddressToNameMap s object = Some name) =
        (\<exists>type. m_InstanceMap s name = Some (Reference object type)))"

definition one_name_per_address :: "InstanceTable \<Rightarrow> bool" where
  "one_name_per_address s =
     (\<forall>object n1 n2 t1 t2. m_InstanceMap s n1 = Some (Reference object t1) \<and>
         m_InstanceMap s n2 = Some (Reference object t2) \<longrightarrow> n1 = n2)"

subsection \<open>A table to run the functions on\<close>

text \<open>
  Type \<open>X\<close> has a delete function, type \<open>Y\<close> has none; \<open>table_XY\<close> is the table
  after registering the delete function of \<open>X\<close> and setting three objects.
\<close>

definition TypeX :: Type where "TypeX = Type 100 ''X''"
definition TypeY :: Type where "TypeY = Type 200 ''Y''"
definition cvX :: CvQualifiedType where "cvX = CvQualifiedType TypeX False False"
definition cvY :: CvQualifiedType where "cvY = CvQualifiedType TypeY False False"
definition freeX :: DeleteFunction where "freeX = 7"

definition table_XY :: InstanceTable where
  "table_XY =
     table_of (SetObject plain ''__temp0'' 3 cvX
       (table_of (SetObject plain ''b'' 2 cvY
         (table_of (SetObject plain ''a'' 1 cvX
           (table_of (SetDeleteFunction TypeX freeX InstanceTable_new)))))))"

definition ops_reuse :: "operation list" where
  "ops_reuse = [Op_SetObject ''a'' 1 cvX, Op_SetObject ''b'' 1 cvX]"

definition ops_throw :: "operation list" where
  "ops_throw =
     [Op_SetDeleteFunction TypeX freeX, Op_SetObject ''a'' 1 cvX, Op_DeleteObject ''a'']"

definition ops_fresh :: "operation list" where
  "ops_fresh =
     [Op_SetDeleteFunction TypeX freeX, Op_SetObject ''a'' 1 cvX, Op_SetObject ''b'' 2 cvY,
      Op_CreateTemporary 3 cvX, Op_SetObject ''a'' 1 cvY, Op_DeleteCallBack 3]"



definition table_tmp1 :: InstanceTable where
  "table_tmp1 = table_of (CreateTemporary plain 4 cvX InstanceTable_new)"

definition table_tmp2 :: InstanceTable where
  "table_tmp2 = table_of (CreateTemporary plain 5 cvY table_tmp1)"

section \<open>Basic facts\<close>

lemma table_XY_eq:
  "table_XY =
     \<lparr>m_TempNameNumber = 0,
      m_InstanceMap = [''a'' \<mapsto> Reference 1 cvX, ''b'' \<mapsto> Reference 2 cvY, ''__temp0'' \<mapsto> Reference 3 cvX],
      m_DeleteFunctionMap = [TypeX \<mapsto> freeX],
      m_AddressToNameMap = [1 \<mapsto> ''a'', 2 \<mapsto> ''b'', 3 \<mapsto> ''__temp0''],
      calls = []\<rparr>"
  by (simp add: table_XY_def SetObject_def SetDeleteFunction_def InstanceTable_new_def Exists_def)

lemma table_XY_a:
  "m_InstanceMap table_XY ''a'' = Some (Reference 1 cvX)"
  "m_DeleteFunctionMap table_XY (GetType cvX) = Some freeX"
  by (simp_all add: table_XY_eq cvX_def)

lemma CheckExists_bound: "m_InstanceMap s name = Some ref \<Longrightarrow> CheckExists name s = Returns () s"
  by (simp add: CheckExists_def Exists_def)

lemma CheckExists_unbound:
  "m_InstanceMap s name = None \<Longrightarrow> CheckExists name s = Throws (UndefinedInstanceNameException name) s"
  by (simp add: CheckExists_def Exists_def)

lemma DeleteObject_bound:
  assumes "m_InstanceMap s name = Some (Reference object type)"
    and "m_DeleteFunctionMap s (GetType type) = Some f"
  shows "DeleteObject run name s =
    (case run (Call_DeleteFunction f object)
            (s\<lparr>m_AddressToNameMap := (m_AddressToNameMap s)(object := None),
               calls := calls s @ [Call_DeleteFunction f object]\<rparr>) of
       Throws e s' \<Rightarrow> Throws e s'
     | Returns _ s2 \<Rightarrow>
         (case run (Call_Tcl_DeleteCommand (c_str name))
                 (s2\<lparr>m_InstanceMap := (m_InstanceMap s2)(name := None),
                     calls := calls s2 @ [Call_Tcl_DeleteCommand (c_str name)]\<rparr>) of
            Throws e s' \<Rightarrow> Throws e s'
          | Returns _ s4 \<Rightarrow> Returns () s4))"
  using assms
  by (simp add: DeleteObject_def CheckExists_bound Let_def split: outcome.splits)

lemma DeleteObject_plain:
  assumes "m_InstanceMap s name = Some (Reference object type)"
    and "m_DeleteFunctionMap s (GetType type) = Some f"
  shows "DeleteObject plain name s =
    Returns () (s\<lparr>m_InstanceMap := (m_InstanceMap s)(name := None),
                   m_AddressToNameMap := (m_AddressToNameMap s)(object := None),
                   calls := calls s @ [Call_DeleteFunction f object,
                                       Call_Tcl_DeleteCommand (c_str name)]\<rparr>)"
  by (simp add: DeleteObject_bound [OF assms] plain_def)


lemma DeleteObject_notifying:
  "DeleteObject (notifying run) name s = DeleteObject plain name s"
  by (simp add: DeleteObject_def plain_def DeleteCallBack_def Let_def
      split: outcome.splits option.splits)

text \<open>
  With delete functions that make the callback for their own object, every member
  function does what it does with delete functions that do not call back.
\<close>

lemma SetObject_notifying:
  "SetObject (notifying run) name object type s = SetObject plain name object type s"
  by (simp add: SetObject_def DeleteObject_notifying)

lemma CreateTemporary_notifying:
  "CreateTemporary (notifying run) object type s = CreateTemporary plain object type s"
  by (simp add: CreateTemporary_def SetObject_notifying)

lemma DeleteIfTemporary_notifying:
  "DeleteIfTemporary (notifying run) name s = DeleteIfTemporary plain name s"
  by (simp add: DeleteIfTemporary_def DeleteObject_notifying split: outcome.splits)

lemma DeleteCallBack_notifying:
  "DeleteCallBack (notifying run) object s = DeleteCallBack plain object s"
  by (simp add: DeleteCallBack_def DeleteObject_notifying split: option.splits)

lemma SetObject_bound:
  assumes "m_InstanceMap s name = Some (Reference p1 t1)"
    and "m_DeleteFunctionMap s (GetType t1) = Some f"
  shows "SetObject run name p2 t2 s =
    (case run (Call_DeleteFunction f p1)
            (s\<lparr>m_AddressToNameMap := (m_AddressToNameMap s)(p1 := None),
               calls := calls s @ [Call_DeleteFunction f p1]\<rparr>) of
       Throws e s' \<Rightarrow> Throws e s'
     | Returns _ s2 \<Rightarrow>
         (case run (Call_Tcl_DeleteCommand (c_str name))
                 (s2\<lparr>m_InstanceMap := (m_InstanceMap s2)(name := None),
                     calls := calls s2 @ [Call_Tcl_DeleteCommand (c_str name)]\<rparr>) of
            Throws e s' \<Rightarrow> Throws e s'
          | Returns _ s4 \<Rightarrow>
              Returns () (s4\<lparr>m_InstanceMap := (m_InstanceMap s4)(name \<mapsto> Reference p2 t2),
                              m_AddressToNameMap := (m_AddressToNameMap s4)(p2 \<mapsto> name)\<rparr>)))"
  using assms(1)
  by (simp add: SetObject_def Exists_def DeleteObject_bound [OF assms] split: outcome.splits)

lemma SetObject_Returns_binds:
  "SetObject run name object type s = Returns u s' \<Longrightarrow>
     m_InstanceMap s' name = Some (Reference object type)"
  by (auto simp: SetObject_def Let_def split: outcome.splits if_splits)


lemma DeleteObject_plain_eq:
  "DeleteObject plain name s =
     (case m_InstanceMap s name of
        None \<Rightarrow> Throws (UndefinedInstanceNameException name) s
      | Some ref \<Rightarrow>
          (case m_DeleteFunctionMap s (GetType (Reference_GetReferencedType ref)) of
             None \<Rightarrow> Throws (UndefinedObjectTypeException
                        (Name (GetType (Reference_GetReferencedType ref)))) s
           | Some f \<Rightarrow>
               Returns ()
                 (s\<lparr>m_InstanceMap := (m_InstanceMap s)(name := None),
                    m_AddressToNameMap := (m_AddressToNameMap s)(Reference_GetObject ref := None),
                    calls := calls s @ [Call_DeleteFunction f (Reference_GetObject ref),
                                        Call_Tcl_DeleteCommand (c_str name)]\<rparr>)))"
  by (simp add: DeleteObject_def CheckExists_def Exists_def plain_def Let_def split: option.splits)

lemma SetObject_plain_eq:
  "SetObject plain name object type s =
     (case (case m_InstanceMap s name of None \<Rightarrow> Returns () s | Some ref \<Rightarrow> DeleteObject plain name s) of
        Throws e s' \<Rightarrow> Throws e s'
      | Returns _ s1 \<Rightarrow>
          Returns ()
            (s1\<lparr>m_InstanceMap := (m_InstanceMap s1)(name \<mapsto> Reference object type),
                m_AddressToNameMap := (m_AddressToNameMap s1)(object \<mapsto> name)\<rparr>))"
  by (simp add: SetObject_def Exists_def Let_def split: option.splits outcome.splits)

lemma substr_prefix: "(substr name 0 6 = ''__temp'') = (\<exists>rest. name = ''__temp'' @ rest)"
proof
  assume "substr name 0 6 = ''__temp''"
  then have "name = ''__temp'' @ drop 6 name"
    unfolding substr_def by (metis append_take_drop_id drop0)
  then show "\<exists>rest. name = ''__temp'' @ rest" ..
next
  assume "\<exists>rest. name = ''__temp'' @ rest"
  then show "substr name 0 6 = ''__temp''"
    by (auto simp: substr_def)
qed

section \<open>The temporary name fits its buffer\<close>

lemma length_hex: "n < 16 ^ k \<Longrightarrow> 0 < k \<Longrightarrow> length (hex n) \<le> k"
proof (induction n arbitrary: k rule: hex.induct)
  case (1 n)
  show ?case
  proof (cases "n < 16")
    case True
    with "1.prems" show ?thesis by (simp add: hex.simps [of n])
  next
    case False
    with "1.prems" obtain j where k: "k = Suc j" and j: "0 < j"
      by (cases k; cases "k - 1") auto
    from "1.prems" k have "n div 16 < 16 ^ j"
      by (simp add: less_mult_imp_div_less mult.commute)
    with "1.IH" [OF False _ j] have "length (hex (n div 16)) \<le> j" by simp
    with False k show ?thesis by (simp add: hex.simps [of n])
  qed
qed

text \<open>
  C10: whatever the 32-bit counter holds, the temporary name is \<^verbatim>\<open>__temp\<close> followed by at
  most eight hexadecimal digits, so it has at most 14 characters, and \<^verbatim>\<open>sprintf\<close> writes
  at most the 15 bytes of \<^verbatim>\<open>tempName\<close>.
\<close>

theorem sprintf_temp_fits:
  "(\<exists>digits. sprintf_temp n = ''__temp'' @ digits \<and> length digits \<le> 8
       \<and> set digits \<subseteq> set ''0123456789abcdef'')
   \<and> length (sprintf_temp n) \<le> 14
   \<and> sprintf_temp_written n \<le> tempName_size"
proof -
  have "unat n < 2 ^ 32"
    using unsigned_less [of n] by simp
  then have "unat n < 16 ^ 8" by simp
  then have len: "length (hex (unat n)) \<le> 8"
    by (rule length_hex) simp
  have digs: "set (hex m) \<subseteq> set ''0123456789abcdef''" for m
  proof (induction m rule: hex.induct)
    case (1 m)
    have d: "hex_digit i \<in> set ''0123456789abcdef''" if "i < 16" for i
      unfolding hex_digit_def using that by (intro nth_mem) simp
    show ?case
    proof (cases "m < 16")
      case True
      then show ?thesis using d [of m] by (simp add: hex.simps [of m])
    next
      case False
      then show ?thesis using "1.IH" d [of "m mod 16"] by (simp add: hex.simps [of m])
    qed
  qed
  from len digs [of "unat n"] show ?thesis
    by (auto simp: sprintf_temp_def sprintf_temp_written_def tempName_size_def)
qed

section \<open>Looking a name up\<close>

text \<open>
  C9: for a name bound to an object and a type, \<open>GetEntry\<close>, \<open>GetObject\<close> and \<open>GetType\<close>
  return exactly the stored reference, object and type, and the table is as before; for
  a name that is not bound each of them throws \<open>UndefinedInstanceNameException\<close>.
\<close>

theorem Lookup_bound_unbound:
  "(m_InstanceMap s name = Some (Reference object type) \<longrightarrow>
      GetEntry name s = Returns (Reference object type) s \<and>
      GetObject name s = Returns object s \<and>
      GetType_of name s = Returns type s) \<and>
   (m_InstanceMap s name = None \<longrightarrow>
      GetEntry name s = Throws (UndefinedInstanceNameException name) s \<and>
      GetObject name s = Throws (UndefinedInstanceNameException name) s \<and>
      GetType_of name s = Throws (UndefinedInstanceNameException name) s)"
  by (simp add: GetEntry_def GetObject_def GetType_of_def CheckExists_bound CheckExists_unbound)

theorem Lookup_bound_unbound_witness:
  "GetEntry ''b'' table_XY = Returns (Reference 2 cvY) table_XY \<and>
   GetObject ''b'' table_XY = Returns 2 table_XY \<and>
   GetType_of ''b'' table_XY = Returns cvY table_XY \<and>
   GetEntry ''c'' table_XY = Throws (UndefinedInstanceNameException ''c'') table_XY \<and>
   GetObject ''c'' table_XY = Throws (UndefinedInstanceNameException ''c'') table_XY \<and>
   GetType_of ''c'' table_XY = Throws (UndefinedInstanceNameException ''c'') table_XY"
proof -
  have b: "m_InstanceMap table_XY ''b'' = Some (Reference 2 cvY)"
    by (simp add: table_XY_eq)
  have c: "m_InstanceMap table_XY ''c'' = None"
    by (simp add: table_XY_eq)
  from Lookup_bound_unbound [where s = table_XY and name = "''b''" and object = 2 and type = cvY] b
    Lookup_bound_unbound [where s = table_XY and name = "''c''"] c
  show ?thesis by simp
qed

section \<open>Deleting an object\<close>

text \<open>
  C5: \<open>DeleteObject\<close> checks before it changes anything. For a name that is not bound it
  throws \<open>UndefinedInstanceNameException\<close>; for a bound name whose type has no delete
  function it throws \<open>UndefinedObjectTypeException\<close>. In both cases the table it leaves is
  the table it was given, so the name still exists and the reverse map is the same.
\<close>

theorem DeleteObject_errors:
  "(m_InstanceMap s name = None \<longrightarrow>
      DeleteObject run name s = Throws (UndefinedInstanceNameException name) s) \<and>
   (m_InstanceMap s name = Some ref \<and>
    m_DeleteFunctionMap s (GetType (Reference_GetReferencedType ref)) = None \<longrightarrow>
      DeleteObject run name s =
        Throws (UndefinedObjectTypeException (Name (GetType (Reference_GetReferencedType ref)))) s \<and>
      Exists name (table_of (DeleteObject run name s)) \<and>
      m_InstanceMap (table_of (DeleteObject run name s)) = m_InstanceMap s \<and>
      m_AddressToNameMap (table_of (DeleteObject run name s)) = m_AddressToNameMap s)"
  by (simp add: DeleteObject_def CheckExists_bound CheckExists_unbound Exists_def)

theorem DeleteObject_errors_witness:
  "DeleteObject plain ''c'' table_XY = Throws (UndefinedInstanceNameException ''c'') table_XY \<and>
   DeleteObject plain ''b'' table_XY = Throws (UndefinedObjectTypeException ''Y'') table_XY \<and>
   Exists ''b'' (table_of (DeleteObject plain ''b'' table_XY)) \<and>
   m_AddressToNameMap (table_of (DeleteObject plain ''b'' table_XY)) 2 = Some ''b''"
proof -
  have b: "m_InstanceMap table_XY ''b'' = Some (Reference 2 cvY)"
    and d: "m_DeleteFunctionMap table_XY (GetType (Reference_GetReferencedType (Reference 2 cvY))) = None"
    and c: "m_InstanceMap table_XY ''c'' = None"
    and r: "m_AddressToNameMap table_XY 2 = Some ''b''"
    by (simp_all add: table_XY_eq cvY_def TypeY_def TypeX_def)
  from DeleteObject_errors [where s = table_XY and name = "''b''" and ref = "Reference 2 cvY" and run = plain] b d r
    DeleteObject_errors [where s = table_XY and name = "''c''" and run = plain] c
  show ?thesis by (simp add: cvY_def TypeY_def Exists_def)
qed




section \<open>Setting an object\<close>

text \<open>
  C3: when the name is bound to an instance whose type has no delete function,
  \<open>SetObject\<close> throws the \<open>UndefinedObjectTypeException\<close> of the \<open>DeleteObject\<close> it starts
  with; the new binding is not installed and the table, both maps included, is the one
  it was given.
\<close>

theorem SetObject_missing_deleter:
  assumes "m_InstanceMap s name = Some ref"
    and "m_DeleteFunctionMap s (GetType (Reference_GetReferencedType ref)) = None"
  shows "SetObject run name object type s =
           Throws (UndefinedObjectTypeException (Name (GetType (Reference_GetReferencedType ref)))) s \<and>
         m_InstanceMap (table_of (SetObject run name object type s)) = m_InstanceMap s \<and>
         m_AddressToNameMap (table_of (SetObject run name object type s)) = m_AddressToNameMap s \<and>
         m_InstanceMap (table_of (SetObject run name object type s)) name = Some ref"
  using assms by (simp add: SetObject_def DeleteObject_def CheckExists_bound Exists_def)

theorem SetObject_missing_deleter_witness:
  "SetObject plain ''b'' 5 cvX table_XY = Throws (UndefinedObjectTypeException ''Y'') table_XY \<and>
   m_InstanceMap (table_of (SetObject plain ''b'' 5 cvX table_XY)) ''b'' = Some (Reference 2 cvY)"
proof -
  have b: "m_InstanceMap table_XY ''b'' = Some (Reference 2 cvY)"
    and d: "m_DeleteFunctionMap table_XY (GetType (Reference_GetReferencedType (Reference 2 cvY))) = None"
    by (simp_all add: table_XY_eq cvY_def TypeY_def TypeX_def)
  from SetObject_missing_deleter [OF b d, where run = plain and object = 5 and type = cvX] b
  show ?thesis by (simp add: cvY_def TypeY_def)
qed

text \<open>
  C6: when the name is bound to an object \<open>p1\<close> whose type has a delete function,
  \<open>SetObject\<close> of \<open>p2\<close> under that name calls the delete function on \<open>p1\<close> once, on a table
  where the name is still bound to \<open>p1\<close>, and only then installs the new binding;
  afterwards \<open>GetEntry\<close> of the name returns \<open>p2\<close> with the new type.
\<close>

theorem SetObject_rebind:
  assumes "m_InstanceMap s name = Some (Reference p1 t1)"
    and "m_DeleteFunctionMap s (GetType t1) = Some f"
  shows
    "SetObject run name p2 t2 s =
       (case run (Call_DeleteFunction f p1)
               (s\<lparr>m_AddressToNameMap := (m_AddressToNameMap s)(p1 := None),
                  calls := calls s @ [Call_DeleteFunction f p1]\<rparr>) of
          Throws e s' \<Rightarrow> Throws e s'
        | Returns _ s2 \<Rightarrow>
            (case run (Call_Tcl_DeleteCommand (c_str name))
                    (s2\<lparr>m_InstanceMap := (m_InstanceMap s2)(name := None),
                        calls := calls s2 @ [Call_Tcl_DeleteCommand (c_str name)]\<rparr>) of
               Throws e s' \<Rightarrow> Throws e s'
             | Returns _ s4 \<Rightarrow>
                 Returns () (s4\<lparr>m_InstanceMap := (m_InstanceMap s4)(name \<mapsto> Reference p2 t2),
                                 m_AddressToNameMap := (m_AddressToNameMap s4)(p2 \<mapsto> name)\<rparr>))) \<and>
     m_InstanceMap
         (s\<lparr>m_AddressToNameMap := (m_AddressToNameMap s)(p1 := None),
            calls := calls s @ [Call_DeleteFunction f p1]\<rparr>) name = Some (Reference p1 t1) \<and>
     (\<forall>u s'. SetObject run name p2 t2 s = Returns u s' \<longrightarrow>
        GetEntry name s' = Returns (Reference p2 t2) s') \<and>
     SetObject plain name p2 t2 s =
       Returns ()
         (s\<lparr>m_InstanceMap := (m_InstanceMap s)(name \<mapsto> Reference p2 t2),
            m_AddressToNameMap := (m_AddressToNameMap s)(p1 := None, p2 \<mapsto> name),
            calls := calls s @ [Call_DeleteFunction f p1,
                                Call_Tcl_DeleteCommand (c_str name)]\<rparr>) \<and>
     GetEntry name (table_of (SetObject plain name p2 t2 s)) =
       Returns (Reference p2 t2) (table_of (SetObject plain name p2 t2 s))"
proof (intro conjI)
  let ?s1 = "s\<lparr>m_AddressToNameMap := (m_AddressToNameMap s)(p1 := None),
                calls := calls s @ [Call_DeleteFunction f p1]\<rparr>"
  show "SetObject run name p2 t2 s =
       (case run (Call_DeleteFunction f p1) ?s1 of
          Throws e s' \<Rightarrow> Throws e s'
        | Returns _ s2 \<Rightarrow>
            (case run (Call_Tcl_DeleteCommand (c_str name))
                    (s2\<lparr>m_InstanceMap := (m_InstanceMap s2)(name := None),
                        calls := calls s2 @ [Call_Tcl_DeleteCommand (c_str name)]\<rparr>) of
               Throws e s' \<Rightarrow> Throws e s'
             | Returns _ s4 \<Rightarrow>
                 Returns () (s4\<lparr>m_InstanceMap := (m_InstanceMap s4)(name \<mapsto> Reference p2 t2),
                                 m_AddressToNameMap := (m_AddressToNameMap s4)(p2 \<mapsto> name)\<rparr>)))"
    by (rule SetObject_bound [OF assms])
  show "m_InstanceMap ?s1 name = Some (Reference p1 t1)"
    using assms(1) by simp
  show "\<forall>u s'. SetObject run name p2 t2 s = Returns u s' \<longrightarrow>
        GetEntry name s' = Returns (Reference p2 t2) s'"
    by (auto simp: GetEntry_def CheckExists_def Exists_def dest: SetObject_Returns_binds)
  show plain: "SetObject plain name p2 t2 s =
       Returns ()
         (s\<lparr>m_InstanceMap := (m_InstanceMap s)(name \<mapsto> Reference p2 t2),
            m_AddressToNameMap := (m_AddressToNameMap s)(p1 := None, p2 \<mapsto> name),
            calls := calls s @ [Call_DeleteFunction f p1,
                                Call_Tcl_DeleteCommand (c_str name)]\<rparr>)"
    by (simp add: SetObject_bound [OF assms] plain_def)
  show "GetEntry name (table_of (SetObject plain name p2 t2 s)) =
       Returns (Reference p2 t2) (table_of (SetObject plain name p2 t2 s))"
    by (simp add: plain GetEntry_def CheckExists_def Exists_def)
qed

theorem SetObject_rebind_witness:
  "SetObject plain ''a'' 9 cvY table_XY =
     Returns ()
       (table_XY\<lparr>m_InstanceMap := (m_InstanceMap table_XY)(''a'' \<mapsto> Reference 9 cvY),
          m_AddressToNameMap := (m_AddressToNameMap table_XY)(1 := None, 9 \<mapsto> ''a''),
          calls := [Call_DeleteFunction freeX 1, Call_Tcl_DeleteCommand ''a'']\<rparr>) \<and>
   GetEntry ''a'' (table_of (SetObject plain ''a'' 9 cvY table_XY)) =
     Returns (Reference 9 cvY) (table_of (SetObject plain ''a'' 9 cvY table_XY))"
proof -
  have c: "calls table_XY = []" by (simp add: table_XY_eq)
  have z: "c_str ''a'' = ''a''" by (simp add: c_str_def)
  note rebind = SetObject_rebind [OF table_XY_a, where run = plain and ?p2.0 = 9 and ?t2.0 = cvY]
  from rebind have "SetObject plain ''a'' 9 cvY table_XY =
       Returns ()
         (table_XY\<lparr>m_InstanceMap := (m_InstanceMap table_XY)(''a'' \<mapsto> Reference 9 cvY),
            m_AddressToNameMap := (m_AddressToNameMap table_XY)(1 := None, 9 \<mapsto> ''a''),
            calls := calls table_XY @ [Call_DeleteFunction freeX 1,
                                Call_Tcl_DeleteCommand (c_str ''a'')]\<rparr>)"
    and "GetEntry ''a'' (table_of (SetObject plain ''a'' 9 cvY table_XY)) =
       Returns (Reference 9 cvY) (table_of (SetObject plain ''a'' 9 cvY table_XY))"
    by blast+
  with c z show ?thesis by (simp del: One_nat_def)
qed

section \<open>Temporaries\<close>

lemma hex_nonempty: "hex n \<noteq> []"
  by (simp add: hex.simps [of n])

lemma hex_digit_inj:
  assumes "i < 16" and "j < 16" and "hex_digit i = hex_digit j"
  shows "i = j"
proof -
  have "distinct ''0123456789abcdef''" by simp
  moreover have "i < length ''0123456789abcdef''" and "j < length ''0123456789abcdef''"
    using assms by simp_all
  ultimately show ?thesis
    using assms(3) unfolding hex_digit_def by (simp only: nth_eq_iff_index_eq)
qed

lemma hex_inj: "hex n = hex m \<Longrightarrow> n = m"
proof (induction n arbitrary: m rule: hex.induct)
  case (1 n)
  show ?case
  proof (cases "n < 16")
    case n: True
    show ?thesis
    proof (cases "m < 16")
      case True
      with n "1.prems" show ?thesis
        by (simp add: hex.simps [of n] hex.simps [of m] hex_digit_inj)
    next
      case False
      with n "1.prems" hex_nonempty [of "m div 16"] show ?thesis
        by (simp add: hex.simps [of n] hex.simps [of m] Cons_eq_append_conv)
    qed
  next
    case n: False
    show ?thesis
    proof (cases "m < 16")
      case True
      with n "1.prems" hex_nonempty [of "n div 16"] show ?thesis
        by (simp add: hex.simps [of n] hex.simps [of m] append_eq_Cons_conv)
    next
      case False
      with n "1.prems" have "hex (n div 16) = hex (m div 16)"
        and d: "hex_digit (n mod 16) = hex_digit (m mod 16)"
        by (simp_all add: hex.simps [of n] hex.simps [of m])
      with "1.IH" [OF n] have "n div 16 = m div 16" by simp
      moreover from d have "n mod 16 = m mod 16"
        by (rule hex_digit_inj [rotated 2]) simp_all
      ultimately show ?thesis
        by (metis div_mult_mod_eq)
    qed
  qed
qed

lemma sprintf_temp_inj: "sprintf_temp a = sprintf_temp b \<Longrightarrow> a = b"
  by (simp add: sprintf_temp_def) (metis hex_inj word_unat_eq_iff)

lemma SetObject_plain_Returns:
  assumes "SetObject plain name object type s = Returns u s'"
  shows "m_TempNameNumber s' = m_TempNameNumber s"
    and "m_InstanceMap s' name = Some (Reference object type)"
    and "n \<noteq> name \<Longrightarrow> m_InstanceMap s' n = m_InstanceMap s n"
  using assms unfolding SetObject_plain_eq DeleteObject_plain_eq
  by (auto split: option.splits outcome.splits)

lemma CreateTemporary_plain_Returns:
  assumes "CreateTemporary plain object type s = Returns name s'"
  shows "name = sprintf_temp (m_TempNameNumber s)"
    and "m_TempNameNumber s' = m_TempNameNumber s + 1"
    and "m_InstanceMap s' name = Some (Reference object type)"
    and "n \<noteq> name \<Longrightarrow> m_InstanceMap s' n = m_InstanceMap s n"
proof -
  from assms have n: "name = sprintf_temp (m_TempNameNumber s)"
    and set: "SetObject plain name object type (s\<lparr>m_TempNameNumber := m_TempNameNumber s + 1\<rparr>)
               = Returns () s'"
    by (auto simp: CreateTemporary_def Let_def split: outcome.splits)
  show "name = sprintf_temp (m_TempNameNumber s)" by (rule n)
  from SetObject_plain_Returns(1) [OF set]
  show "m_TempNameNumber s' = m_TempNameNumber s + 1" by simp
  from SetObject_plain_Returns(2) [OF set]
  show "m_InstanceMap s' name = Some (Reference object type)" .
  from SetObject_plain_Returns(3) [OF set]
  show "n \<noteq> name \<Longrightarrow> m_InstanceMap s' n = m_InstanceMap s n" by simp
qed

text \<open>
  C8: when two successive calls of \<open>CreateTemporary\<close> return, the names are \<^verbatim>\<open>__temp\<close>
  followed by the counter in hexadecimal, before and after one increment; they differ, and
  \<open>GetEntry\<close> finds each of them bound to its object in the table the second call leaves.
\<close>

theorem CreateTemporary_twice:
  assumes "CreateTemporary plain o1 t1 s = Returns n1 s1"
    and "CreateTemporary plain o2 t2 s1 = Returns n2 s2"
  shows "n1 \<noteq> n2 \<and>
         n1 = ''__temp'' @ hex (unat (m_TempNameNumber s)) \<and>
         n2 = ''__temp'' @ hex (unat (m_TempNameNumber s + 1)) \<and>
         m_TempNameNumber s1 = m_TempNameNumber s + 1 \<and>
         m_TempNameNumber s2 = m_TempNameNumber s + 2 \<and>
         GetEntry n1 s1 = Returns (Reference o1 t1) s1 \<and>
         GetEntry n1 s2 = Returns (Reference o1 t1) s2 \<and>
         GetEntry n2 s2 = Returns (Reference o2 t2) s2"
proof -
  note a = CreateTemporary_plain_Returns [OF assms(1)]
  note b = CreateTemporary_plain_Returns [OF assms(2)]
  have neq: "n1 \<noteq> n2"
  proof
    assume "n1 = n2"
    with a(1) b(1) a(2) have "m_TempNameNumber s = m_TempNameNumber s + 1"
      by (auto dest: sprintf_temp_inj)
    then show False by simp
  qed
  then have "m_InstanceMap s2 n1 = Some (Reference o1 t1)"
    using b(4) [of n1] a(3) by simp
  with neq a b show ?thesis
    by (simp add: sprintf_temp_def GetEntry_def CheckExists_def Exists_def)
qed

theorem CreateTemporary_twice_witness:
  "CreateTemporary plain 4 cvX InstanceTable_new = Returns ''__temp0'' table_tmp1 \<and>
   CreateTemporary plain 5 cvY table_tmp1 = Returns ''__temp1'' table_tmp2 \<and>
   ''__temp0'' \<noteq> ''__temp1'' \<and>
   m_TempNameNumber table_tmp2 = 2 \<and>
   GetEntry ''__temp0'' table_tmp2 = Returns (Reference 4 cvX) table_tmp2 \<and>
   GetEntry ''__temp1'' table_tmp2 = Returns (Reference 5 cvY) table_tmp2"
proof -
  have one: "CreateTemporary plain 4 cvX InstanceTable_new = Returns ''__temp0'' table_tmp1"
    by (simp add: table_tmp1_def CreateTemporary_def SetObject_plain_eq InstanceTable_new_def
        sprintf_temp_def hex.simps hex_digit_def Let_def)
  have "m_TempNameNumber table_tmp1 = 1" and "m_InstanceMap table_tmp1 ''__temp1'' = None"
    by (simp_all add: table_tmp1_def CreateTemporary_def SetObject_plain_eq InstanceTable_new_def
        sprintf_temp_def hex.simps hex_digit_def Let_def)
  then have two: "CreateTemporary plain 5 cvY table_tmp1 = Returns ''__temp1'' table_tmp2"
    by (simp add: table_tmp2_def CreateTemporary_def SetObject_plain_eq
        sprintf_temp_def hex.simps hex_digit_def Let_def)
  have zero: "m_TempNameNumber InstanceTable_new = 0"
    by (simp add: InstanceTable_new_def)
  from CreateTemporary_twice [OF one two]
  have "''__temp0'' \<noteq> ''__temp1''"
    and "m_TempNameNumber table_tmp2 = m_TempNameNumber InstanceTable_new + 2"
    and "GetEntry ''__temp0'' table_tmp2 = Returns (Reference 4 cvX) table_tmp2"
    and "GetEntry ''__temp1'' table_tmp2 = Returns (Reference 5 cvY) table_tmp2"
    by blast+
  with one two zero show ?thesis by simp
qed

text \<open>
  C7: \<open>DeleteIfTemporary\<close> throws \<open>UndefinedInstanceNameException\<close> for a name that is not
  bound; for a bound name that begins with \<^verbatim>\<open>__temp\<close> it is \<open>DeleteObject\<close>; for a bound
  name that does not, it returns and the table is as before.
\<close>

theorem DeleteIfTemporary_cases:
  "(m_InstanceMap s name = None \<longrightarrow>
      DeleteIfTemporary run name s = Throws (UndefinedInstanceNameException name) s) \<and>
   (m_InstanceMap s name \<noteq> None \<and> (\<exists>rest. name = ''__temp'' @ rest) \<longrightarrow>
      DeleteIfTemporary run name s = DeleteObject run name s) \<and>
   (m_InstanceMap s name \<noteq> None \<and> \<not> (\<exists>rest. name = ''__temp'' @ rest) \<longrightarrow>
      DeleteIfTemporary run name s = Returns () s \<and>
      Exists name (table_of (DeleteIfTemporary run name s)))"
  unfolding substr_prefix [symmetric]
  by (auto simp: DeleteIfTemporary_def CheckExists_bound CheckExists_unbound Exists_def)

theorem DeleteIfTemporary_cases_witness:
  "DeleteIfTemporary plain ''c'' table_XY = Throws (UndefinedInstanceNameException ''c'') table_XY \<and>
   DeleteIfTemporary plain ''__temp0'' table_XY = DeleteObject plain ''__temp0'' table_XY \<and>
   DeleteIfTemporary plain ''a'' table_XY = Returns () table_XY \<and>
   Exists ''a'' (table_of (DeleteIfTemporary plain ''a'' table_XY))"
proof -
  have c: "m_InstanceMap table_XY ''c'' = None"
    and t: "m_InstanceMap table_XY ''__temp0'' \<noteq> None"
    and a: "m_InstanceMap table_XY ''a'' \<noteq> None"
    by (simp_all add: table_XY_eq)
  have pt: "\<exists>rest. ''__temp0'' = ''__temp'' @ rest"
    and pa: "\<not> (\<exists>rest. ''a'' = ''__temp'' @ rest)"
    by simp_all
  from DeleteIfTemporary_cases [where s = table_XY and name = "''c''" and run = plain] c
    DeleteIfTemporary_cases [where s = table_XY and name = "''__temp0''" and run = plain] t pt
    DeleteIfTemporary_cases [where s = table_XY and name = "''a''" and run = plain] a pa
  show ?thesis by blast
qed

section \<open>The callback of an instance that deletes itself\<close>

text \<open>
  C1: run on \<open>table_XY\<close> with the address of the object named \<^verbatim>\<open>a\<close>, \<open>DeleteCallBack\<close>
  goes through \<open>DeleteObject\<close>: it calls the delete function registered for the type on
  the object, besides pruning both maps and deleting the Tcl command.
\<close>

theorem DeleteCallBack_calls_delete_function:
  "DeleteCallBack plain 1 table_XY =
     Returns ()
       (table_XY\<lparr>m_InstanceMap := (m_InstanceMap table_XY)(''a'' := None),
          m_AddressToNameMap := (m_AddressToNameMap table_XY)(1 := None),
          calls := [Call_DeleteFunction freeX 1, Call_Tcl_DeleteCommand ''a'']\<rparr>)"
proof -
  have "m_AddressToNameMap table_XY 1 = Some ''a''" and "calls table_XY = []"
    by (simp_all add: table_XY_eq)
  then show ?thesis
    by (simp add: DeleteCallBack_def DeleteObject_plain [OF table_XY_a] c_str_def)
qed

section \<open>The two maps\<close>

lemma reverse_sound_erase:
  assumes "reverse_sound s" and "m_InstanceMap s name = Some ref"
  shows "reverse_sound
           (s\<lparr>m_InstanceMap := (m_InstanceMap s)(name := None),
              m_AddressToNameMap := (m_AddressToNameMap s)(Reference_GetObject ref := None),
              calls := cs\<rparr>)"
  unfolding reverse_sound_def
proof (intro allI impI)
  fix a n
  let ?s' = "s\<lparr>m_InstanceMap := (m_InstanceMap s)(name := None),
              m_AddressToNameMap := (m_AddressToNameMap s)(Reference_GetObject ref := None),
              calls := cs\<rparr>"
  assume "m_AddressToNameMap ?s' a = Some n"
  then have a: "a \<noteq> Reference_GetObject ref" and "m_AddressToNameMap s a = Some n"
    by (auto split: if_splits)
  with assms(1) obtain t where t: "m_InstanceMap s n = Some (Reference a t)"
    unfolding reverse_sound_def by blast
  with a assms(2) have "n \<noteq> name" by auto
  with t show "\<exists>type. m_InstanceMap ?s' n = Some (Reference a type)" by simp
qed

lemma reverse_sound_forget:
  assumes "reverse_sound s"
  shows "reverse_sound
           (s\<lparr>m_AddressToNameMap := (m_AddressToNameMap s)(object := None), calls := cs\<rparr>)"
  using assms unfolding reverse_sound_def by (auto split: if_splits)

lemma quiet_plain: "quiet plain"
  by (simp add: quiet_def plain_def)

lemma quiet_Returns: "quiet run \<Longrightarrow> run c s = Returns u s' \<Longrightarrow> s' = s"
  unfolding quiet_def by (metis table_of.simps(1))

lemma quiet_Throws: "quiet run \<Longrightarrow> run c s = Throws e s' \<Longrightarrow> s' = s"
  unfolding quiet_def by (metis table_of.simps(2))

lemma table_of_rethrow:
  "table_of (case out of Throws e s' \<Rightarrow> Throws e s' | Returns u s4 \<Rightarrow> Returns () s4) = table_of out"
  by (cases out) simp_all

lemma DeleteObject_quiet_cases:
  assumes q: "quiet run"
  obtains (unchanged) "table_of (DeleteObject run name s) = s"
  | (thrown) object cs where "\<not> deleters_return run"
      and "table_of (DeleteObject run name s) =
             s\<lparr>m_AddressToNameMap := (m_AddressToNameMap s)(object := None), calls := cs\<rparr>"
  | (erased) ref cs where "m_InstanceMap s name = Some ref"
      and "table_of (DeleteObject run name s) =
             s\<lparr>m_InstanceMap := (m_InstanceMap s)(name := None),
                m_AddressToNameMap := (m_AddressToNameMap s)(Reference_GetObject ref := None),
                calls := cs\<rparr>"
proof (cases "m_InstanceMap s name")
  case None
  then have "table_of (DeleteObject run name s) = s"
    by (simp add: DeleteObject_def CheckExists_unbound)
  then show ?thesis by (rule unchanged)
next
  case (Some ref)
  obtain object type where ref: "ref = Reference object type"
    by (cases ref)
  with Some have bound: "m_InstanceMap s name = Some (Reference object type)"
    by simp
  show ?thesis
  proof (cases "m_DeleteFunctionMap s (GetType type)")
    case None
    with bound have "table_of (DeleteObject run name s) = s"
      by (simp add: DeleteObject_def CheckExists_bound)
    then show ?thesis by (rule unchanged)
  next
    case del: (Some f)
    let ?s1 = "s\<lparr>m_AddressToNameMap := (m_AddressToNameMap s)(object := None),
                  calls := calls s @ [Call_DeleteFunction f object]\<rparr>"
    show ?thesis
    proof (cases "run (Call_DeleteFunction f object) ?s1")
      case (Throws e x)
      then have "\<not> deleters_return run"
        unfolding deleters_return_def by (metis outcome.distinct(1))
      moreover from q Throws have "x = ?s1" by (rule quiet_Throws)
      with Throws have "table_of (DeleteObject run name s) = ?s1"
        by (simp add: DeleteObject_bound [OF bound del])
      ultimately show ?thesis by (rule thrown)
    next
      case (Returns u x)
      with q have x: "x = ?s1" by (rule quiet_Returns)
      let ?s3 = "s\<lparr>m_InstanceMap := (m_InstanceMap s)(name := None),
                    m_AddressToNameMap := (m_AddressToNameMap s)(Reference_GetObject ref := None),
                    calls := calls s @ [Call_DeleteFunction f object,
                                        Call_Tcl_DeleteCommand (c_str name)]\<rparr>"
      have s3: "?s1\<lparr>m_InstanceMap := (m_InstanceMap ?s1)(name := None),
                   calls := calls ?s1 @ [Call_Tcl_DeleteCommand (c_str name)]\<rparr> = ?s3"
        by (simp add: ref)
      from q have "table_of (run (Call_Tcl_DeleteCommand (c_str name)) ?s3) = ?s3"
        by (simp add: quiet_def)
      with Returns x have "table_of (DeleteObject run name s) = ?s3"
        by (simp only: DeleteObject_bound [OF bound del] outcome.case s3 table_of_rethrow)
      with Some show ?thesis by (rule erased)
    qed
  qed
qed

lemma reverse_sound_DeleteObject:
  assumes q: "quiet run" and rs: "reverse_sound s"
  shows "reverse_sound (table_of (DeleteObject run name s))"
  using q
proof (cases rule: DeleteObject_quiet_cases [where run = run and name = name and s = s])
  case unchanged
  with rs show ?thesis by simp
next
  case (thrown object cs)
  with reverse_sound_forget [OF rs] show ?thesis by simp
next
  case (erased ref cs)
  with reverse_sound_erase [OF rs] show ?thesis by simp
qed

lemma DeleteObject_Returns_unbinds:
  assumes "quiet run" and "DeleteObject run name s = Returns u s'"
  shows "m_InstanceMap s' name = None"
  using assms(2)
  by (auto simp: DeleteObject_def Let_def
      split: outcome.splits option.splits dest!: quiet_Returns [OF assms(1)])

lemma reverse_sound_bind:
  assumes "reverse_sound s" and "m_InstanceMap s name = None"
  shows "reverse_sound
           (s\<lparr>m_InstanceMap := (m_InstanceMap s)(name \<mapsto> Reference object type),
              m_AddressToNameMap := (m_AddressToNameMap s)(object \<mapsto> name)\<rparr>)"
  unfolding reverse_sound_def
proof (intro allI impI)
  fix a n
  let ?s' = "s\<lparr>m_InstanceMap := (m_InstanceMap s)(name \<mapsto> Reference object type),
              m_AddressToNameMap := (m_AddressToNameMap s)(object \<mapsto> name)\<rparr>"
  assume rev: "m_AddressToNameMap ?s' a = Some n"
  show "\<exists>t. m_InstanceMap ?s' n = Some (Reference a t)"
  proof (cases "a = object")
    case True
    with rev show ?thesis by simp
  next
    case False
    with rev have "m_AddressToNameMap s a = Some n" by simp
    with assms(1) obtain t where t: "m_InstanceMap s n = Some (Reference a t)"
      unfolding reverse_sound_def by blast
    with assms(2) have "n \<noteq> name" by auto
    with t show ?thesis by simp
  qed
qed

lemma SetObject_unbound:
  "m_InstanceMap s name = None \<Longrightarrow>
     SetObject run name object type s =
       Returns ()
         (s\<lparr>m_InstanceMap := (m_InstanceMap s)(name \<mapsto> Reference object type),
            m_AddressToNameMap := (m_AddressToNameMap s)(object \<mapsto> name)\<rparr>)"
  by (simp add: SetObject_def Exists_def)

lemma SetObject_after_delete:
  "m_InstanceMap s name = Some ref \<Longrightarrow>
     SetObject run name object type s =
       (case DeleteObject run name s of
          Throws e s' \<Rightarrow> Throws e s'
        | Returns _ s1 \<Rightarrow>
            Returns ()
              (s1\<lparr>m_InstanceMap := (m_InstanceMap s1)(name \<mapsto> Reference object type),
                  m_AddressToNameMap := (m_AddressToNameMap s1)(object \<mapsto> name)\<rparr>))"
  by (simp add: SetObject_def Exists_def Let_def split: outcome.splits)

lemma reverse_sound_SetObject:
  assumes q: "quiet run" and rs: "reverse_sound s"
  shows "reverse_sound (table_of (SetObject run name object type s))"
proof (cases "m_InstanceMap s name")
  case None
  with rs show ?thesis
    by (simp add: SetObject_unbound reverse_sound_bind)
next
  case (Some ref)
  show ?thesis
  proof (cases "DeleteObject run name s")
    case (Returns u s1)
    from reverse_sound_DeleteObject [OF q rs, of name] Returns
    have "reverse_sound s1" by simp
    moreover from q Returns have "m_InstanceMap s1 name = None"
      by (rule DeleteObject_Returns_unbinds)
    ultimately show ?thesis
      using Returns by (simp add: SetObject_after_delete [OF Some] reverse_sound_bind)
  next
    case (Throws e s1)
    from reverse_sound_DeleteObject [OF q rs, of name] Throws
    show ?thesis by (simp add: SetObject_after_delete [OF Some])
  qed
qed

lemma reverse_sound_counter [simp]:
  "reverse_sound (s\<lparr>m_TempNameNumber := c\<rparr>) = reverse_sound s"
  by (simp add: reverse_sound_def)

lemma CreateTemporary_table:
  "table_of (CreateTemporary run object type s) =
     table_of (SetObject run (sprintf_temp (m_TempNameNumber s)) object type
       (s\<lparr>m_TempNameNumber := m_TempNameNumber s + 1\<rparr>))"
  by (simp add: CreateTemporary_def Let_def split: outcome.splits)

lemma DeleteIfTemporary_table:
  "table_of (DeleteIfTemporary run name s) = s \<or>
   table_of (DeleteIfTemporary run name s) = table_of (DeleteObject run name s)"
  by (simp add: DeleteIfTemporary_def CheckExists_def)

lemma DeleteCallBack_table:
  "table_of (DeleteCallBack run object s) = s \<or>
   (\<exists>name. m_AddressToNameMap s object = Some name \<and>
      table_of (DeleteCallBack run object s) = table_of (DeleteObject run name s))"
  by (simp add: DeleteCallBack_def split: option.splits)

lemma reverse_sound_perform:
  assumes q: "quiet run" and rs: "reverse_sound s"
  shows "reverse_sound (perform run x s)"
proof (cases x)
  case (Op_SetDeleteFunction type func)
  with rs show ?thesis
    by (simp add: SetDeleteFunction_def reverse_sound_def)
next
  case (Op_SetObject name object type)
  then show ?thesis by (simp add: reverse_sound_SetObject [OF q rs])
next
  case (Op_DeleteObject name)
  then show ?thesis by (simp add: reverse_sound_DeleteObject [OF q rs])
next
  case (Op_CreateTemporary object type)
  from rs have "reverse_sound (s\<lparr>m_TempNameNumber := m_TempNameNumber s + 1\<rparr>)"
    by simp
  from reverse_sound_SetObject [OF q this] Op_CreateTemporary show ?thesis
    by (simp add: CreateTemporary_table)
next
  case (Op_DeleteIfTemporary name)
  with rs show ?thesis
    using DeleteIfTemporary_table [of run name s]
      reverse_sound_DeleteObject [OF q rs, of name] by auto
next
  case (Op_DeleteCallBack object)
  with rs show ?thesis
    using DeleteCallBack_table [of run object s]
      reverse_sound_DeleteObject [OF q rs] by auto
qed

lemma reverse_sound_perform_all:
  "quiet run \<Longrightarrow> reverse_sound s \<Longrightarrow> reverse_sound (perform_all run xs s)"
  by (induction xs arbitrary: s) (simp_all add: reverse_sound_perform)

lemma perform_notifying: "perform (notifying run) x s = perform plain x s"
  by (cases x)
    (simp_all add: SetObject_notifying DeleteObject_notifying CreateTemporary_notifying
      DeleteIfTemporary_notifying DeleteCallBack_notifying)

lemma perform_all_notifying: "perform_all (notifying run) xs s = perform_all plain xs s"
  by (induction xs arbitrary: s) (simp_all add: perform_notifying)

lemma reverse_sound_new: "reverse_sound InstanceTable_new"
  by (simp add: reverse_sound_def InstanceTable_new_def)

lemma maps_consistent_sound: "maps_consistent s \<Longrightarrow> reverse_sound s"
  by (simp add: maps_consistent_def reverse_sound_def)

lemma maps_consistent_erase:
  assumes "maps_consistent s" and "m_InstanceMap s name = Some ref"
  shows "maps_consistent
           (s\<lparr>m_InstanceMap := (m_InstanceMap s)(name := None),
              m_AddressToNameMap := (m_AddressToNameMap s)(Reference_GetObject ref := None),
              calls := cs\<rparr>)"
  unfolding maps_consistent_def
proof (intro allI iffI)
  fix a n
  let ?s' = "s\<lparr>m_InstanceMap := (m_InstanceMap s)(name := None),
              m_AddressToNameMap := (m_AddressToNameMap s)(Reference_GetObject ref := None),
              calls := cs\<rparr>"
  have sound: "reverse_sound ?s'"
    by (rule reverse_sound_erase [OF maps_consistent_sound [OF assms(1)] assms(2)])
  {
    assume "m_AddressToNameMap ?s' a = Some n"
    with sound show "\<exists>t. m_InstanceMap ?s' n = Some (Reference a t)"
      unfolding reverse_sound_def by blast
  next
    assume "\<exists>t. m_InstanceMap ?s' n = Some (Reference a t)"
    then obtain t where n: "n \<noteq> name" and t: "m_InstanceMap s n = Some (Reference a t)"
      by (auto split: if_splits)
    from t assms(1) have rev: "m_AddressToNameMap s a = Some n"
      unfolding maps_consistent_def by blast
    have "a \<noteq> Reference_GetObject ref"
    proof
      assume a: "a = Reference_GetObject ref"
      from assms(2) have "m_InstanceMap s name =
          Some (Reference (Reference_GetObject ref) (Reference_GetReferencedType ref))"
        by simp
      with assms(1) have "m_AddressToNameMap s (Reference_GetObject ref) = Some name"
        unfolding maps_consistent_def by blast
      with rev a n show False by simp
    qed
    with rev show "m_AddressToNameMap ?s' a = Some n" by simp
  }
qed

lemma maps_consistent_DeleteObject:
  assumes q: "quiet run" and dr: "deleters_return run" and mc: "maps_consistent s"
  shows "maps_consistent (table_of (DeleteObject run name s))"
  using q
proof (cases rule: DeleteObject_quiet_cases [where run = run and name = name and s = s])
  case unchanged
  with mc show ?thesis by simp
next
  case (thrown object cs)
  with dr show ?thesis by simp
next
  case (erased ref cs)
  with maps_consistent_erase [OF mc] show ?thesis by simp
qed

lemma maps_consistent_bind:
  assumes "maps_consistent s" and "m_InstanceMap s name = None"
    and "held_only_by object name s"
  shows "maps_consistent
           (s\<lparr>m_InstanceMap := (m_InstanceMap s)(name \<mapsto> Reference object type),
              m_AddressToNameMap := (m_AddressToNameMap s)(object \<mapsto> name)\<rparr>)"
  unfolding maps_consistent_def
proof (intro allI iffI)
  fix a n
  let ?s' = "s\<lparr>m_InstanceMap := (m_InstanceMap s)(name \<mapsto> Reference object type),
              m_AddressToNameMap := (m_AddressToNameMap s)(object \<mapsto> name)\<rparr>"
  have sound: "reverse_sound ?s'"
    by (rule reverse_sound_bind [OF maps_consistent_sound [OF assms(1)] assms(2)])
  {
    assume "m_AddressToNameMap ?s' a = Some n"
    with sound show "\<exists>t. m_InstanceMap ?s' n = Some (Reference a t)"
      unfolding reverse_sound_def by blast
  next
    assume "\<exists>t. m_InstanceMap ?s' n = Some (Reference a t)"
    then obtain t where t: "m_InstanceMap ?s' n = Some (Reference a t)" ..
    show "m_AddressToNameMap ?s' a = Some n"
    proof (cases "n = name")
      case True
      with t show ?thesis by simp
    next
      case False
      with t have old: "m_InstanceMap s n = Some (Reference a t)" by simp
      with assms(1) have rev: "m_AddressToNameMap s a = Some n"
        unfolding maps_consistent_def by blast
      from old assms(3) False have "a \<noteq> object"
        unfolding held_only_by_def by auto
      with rev show ?thesis by simp
    qed
  }
qed

lemma held_only_by_DeleteObject:
  assumes q: "quiet run" and h: "held_only_by object name s"
  shows "held_only_by object name (table_of (DeleteObject run n s))"
  using q
proof (cases rule: DeleteObject_quiet_cases [where run = run and name = n and s = s])
  case unchanged
  with h show ?thesis by simp
next
  case (thrown object' cs)
  with h show ?thesis by (simp add: held_only_by_def)
next
  case (erased ref cs)
  with h show ?thesis by (auto simp: held_only_by_def split: if_splits)
qed

lemma maps_consistent_SetObject:
  assumes q: "quiet run" and dr: "deleters_return run"
    and mc: "maps_consistent s" and h: "held_only_by object name s"
  shows "maps_consistent (table_of (SetObject run name object type s))"
proof (cases "m_InstanceMap s name")
  case None
  with mc h show ?thesis
    by (simp add: SetObject_unbound maps_consistent_bind)
next
  case (Some ref)
  show ?thesis
  proof (cases "DeleteObject run name s")
    case (Returns u s1)
    from maps_consistent_DeleteObject [OF q dr mc, of name] Returns
    have "maps_consistent s1" by simp
    moreover from q Returns have "m_InstanceMap s1 name = None"
      by (rule DeleteObject_Returns_unbinds)
    moreover from held_only_by_DeleteObject [OF q h, of name] Returns
    have "held_only_by object name s1" by simp
    ultimately show ?thesis
      using Returns by (simp add: SetObject_after_delete [OF Some] maps_consistent_bind)
  next
    case (Throws e s1)
    from maps_consistent_DeleteObject [OF q dr mc, of name] Throws
    show ?thesis by (simp add: SetObject_after_delete [OF Some])
  qed
qed

lemma maps_consistent_counter [simp]:
  "maps_consistent (s\<lparr>m_TempNameNumber := c\<rparr>) = maps_consistent s"
  by (simp add: maps_consistent_def)

lemma held_only_by_counter [simp]:
  "held_only_by object name (s\<lparr>m_TempNameNumber := c\<rparr>) = held_only_by object name s"
  by (simp add: held_only_by_def)

lemma maps_consistent_perform:
  assumes q: "quiet run" and dr: "deleters_return run"
    and mc: "maps_consistent s" and nr: "no_reuse x s"
  shows "maps_consistent (perform run x s)"
proof (cases x)
  case (Op_SetDeleteFunction type func)
  with mc show ?thesis
    by (simp add: SetDeleteFunction_def maps_consistent_def)
next
  case (Op_SetObject name object type)
  with nr show ?thesis by (simp add: maps_consistent_SetObject [OF q dr mc])
next
  case (Op_DeleteObject name)
  then show ?thesis by (simp add: maps_consistent_DeleteObject [OF q dr mc])
next
  case (Op_CreateTemporary object type)
  with mc nr have "maps_consistent (s\<lparr>m_TempNameNumber := m_TempNameNumber s + 1\<rparr>)"
    and "held_only_by object (sprintf_temp (m_TempNameNumber s))
           (s\<lparr>m_TempNameNumber := m_TempNameNumber s + 1\<rparr>)"
    by simp_all
  from maps_consistent_SetObject [OF q dr this] Op_CreateTemporary show ?thesis
    by (simp add: CreateTemporary_table)
next
  case (Op_DeleteIfTemporary name)
  with mc show ?thesis
    using DeleteIfTemporary_table [of run name s]
      maps_consistent_DeleteObject [OF q dr mc, of name] by auto
next
  case (Op_DeleteCallBack object)
  with mc show ?thesis
    using DeleteCallBack_table [of run object s]
      maps_consistent_DeleteObject [OF q dr mc] by auto
qed

lemma maps_consistent_perform_all:
  "quiet run \<Longrightarrow> deleters_return run \<Longrightarrow> maps_consistent s \<Longrightarrow>
     no_reuse_all run xs s \<Longrightarrow> maps_consistent (perform_all run xs s)"
  by (induction xs arbitrary: s) (simp_all add: maps_consistent_perform)

lemma maps_consistent_new: "maps_consistent InstanceTable_new"
  by (simp add: maps_consistent_def InstanceTable_new_def)

lemma maps_consistent_one_name: "maps_consistent s \<Longrightarrow> one_name_per_address s"
  unfolding maps_consistent_def one_name_per_address_def
  by (metis option.inject)

lemma sprintf_temp_0: "sprintf_temp 0 = ''__temp0''"
  by (simp add: sprintf_temp_def hex.simps hex_digit_def)

lemma deleters_return_plain: "deleters_return plain"
  by (simp add: deleters_return_def plain_def)

lemma no_reuse_ops_fresh: "no_reuse_all plain ops_fresh InstanceTable_new"
  by (auto simp: ops_fresh_def held_only_by_def SetObject_plain_eq DeleteObject_plain_eq
      SetDeleteFunction_def CreateTemporary_def DeleteCallBack_def InstanceTable_new_def
      sprintf_temp_0 cvX_def cvY_def TypeX_def TypeY_def Let_def split: if_splits)

text \<open>
  C2, as the claim states it, fails: after \<open>SetObject\<close> of one address under the names
  \<^verbatim>\<open>a\<close> and \<^verbatim>\<open>b\<close>, both names are bound to the address and the reverse map knows only
  \<^verbatim>\<open>b\<close>.
\<close>

theorem maps_inconsistent_after_reuse:
  "m_InstanceMap (perform_all plain ops_reuse InstanceTable_new) ''a'' = Some (Reference 1 cvX) \<and>
   m_InstanceMap (perform_all plain ops_reuse InstanceTable_new) ''b'' = Some (Reference 1 cvX) \<and>
   m_AddressToNameMap (perform_all plain ops_reuse InstanceTable_new) 1 = Some ''b'' \<and>
   \<not> maps_consistent (perform_all plain ops_reuse InstanceTable_new) \<and>
   \<not> one_name_per_address (perform_all plain ops_reuse InstanceTable_new)"
proof -
  let ?s = "perform_all plain ops_reuse InstanceTable_new"
  have a: "m_InstanceMap ?s ''a'' = Some (Reference 1 cvX)"
    and b: "m_InstanceMap ?s ''b'' = Some (Reference 1 cvX)"
    and r: "m_AddressToNameMap ?s 1 = Some ''b''"
    by (simp_all add: ops_reuse_def SetObject_def Exists_def InstanceTable_new_def)
  have "\<not> maps_consistent ?s"
  proof
    assume "maps_consistent ?s"
    with a have "m_AddressToNameMap ?s 1 = Some ''a''"
      unfolding maps_consistent_def by blast
    with r show False by simp
  qed
  moreover have "\<not> one_name_per_address ?s"
  proof
    assume "one_name_per_address ?s"
    with a b have "''a'' = ''b''"
      unfolding one_name_per_address_def by blast
    then show False by simp
  qed
  ultimately show ?thesis using a b r by simp
qed

text \<open>
  The maps also part ways when a delete function throws: \<open>DeleteObject\<close> has erased the
  address from the reverse map by then, and the name stays bound.
\<close>

lemma maps_inconsistent_after_throw:
  "quiet throwing_delete \<and>
   no_reuse_all throwing_delete ops_throw InstanceTable_new \<and>
   m_InstanceMap (perform_all throwing_delete ops_throw InstanceTable_new) ''a'' =
     Some (Reference 1 cvX) \<and>
   m_AddressToNameMap (perform_all throwing_delete ops_throw InstanceTable_new) 1 = None \<and>
   reverse_sound (perform_all throwing_delete ops_throw InstanceTable_new) \<and>
   \<not> maps_consistent (perform_all throwing_delete ops_throw InstanceTable_new)"
proof -
  let ?s = "perform_all throwing_delete ops_throw InstanceTable_new"
  have q: "quiet throwing_delete"
    unfolding quiet_def
  proof (intro allI)
    fix c s
    show "table_of (throwing_delete c s) = s" by (cases c) simp_all
  qed
  have n: "no_reuse_all throwing_delete ops_throw InstanceTable_new"
    by (simp add: ops_throw_def held_only_by_def SetDeleteFunction_def InstanceTable_new_def)
  have a: "m_InstanceMap ?s ''a'' = Some (Reference 1 cvX)"
    and r: "m_AddressToNameMap ?s 1 = None"
    by (simp_all add: ops_throw_def SetDeleteFunction_def SetObject_def DeleteObject_def
        CheckExists_def Exists_def InstanceTable_new_def cvX_def Let_def)
  have "\<not> maps_consistent ?s"
  proof
    assume "maps_consistent ?s"
    with a have "m_AddressToNameMap ?s 1 = Some ''a''"
      unfolding maps_consistent_def by blast
    with r show False by simp
  qed
  with q n a r reverse_sound_perform_all [OF q reverse_sound_new, of ops_throw]
  show ?thesis by simp
qed

text \<open>
  C2, amended: take any sequence of calls of \<open>SetDeleteFunction\<close>, \<open>SetObject\<close>,
  \<open>DeleteObject\<close>, \<open>CreateTemporary\<close>, \<open>DeleteIfTemporary\<close> and \<open>DeleteCallBack\<close> on a new
  table. When the delete functions and \<^verbatim>\<open>Tcl_DeleteCommand\<close> do not themselves change the
  table, whether they return or throw, every entry of the reverse map points at a name
  that the forward map binds to that address. When moreover no delete function throws and
  no call binds an address that another live name holds at that moment, the converse holds
  too: the maps agree in both directions and no address is held by two names. Delete
  functions that make the callback for their own object reach the same tables as calls that
  return without touching the table.
\<close>

theorem maps_consistency:
  "(quiet run \<longrightarrow> reverse_sound (perform_all run ops InstanceTable_new)) \<and>
   (quiet run \<and> deleters_return run \<and> no_reuse_all run ops InstanceTable_new \<longrightarrow>
      maps_consistent (perform_all run ops InstanceTable_new) \<and>
      one_name_per_address (perform_all run ops InstanceTable_new)) \<and>
   perform_all (notifying run') ops InstanceTable_new = perform_all plain ops InstanceTable_new"
  by (simp add: reverse_sound_perform_all reverse_sound_new maps_consistent_perform_all
      maps_consistent_new maps_consistent_one_name perform_all_notifying)

theorem maps_consistency_witness:
  "quiet plain \<and> deleters_return plain \<and>
   no_reuse_all plain ops_fresh InstanceTable_new \<and>
   reverse_sound (perform_all plain ops_fresh InstanceTable_new) \<and>
   maps_consistent (perform_all plain ops_fresh InstanceTable_new) \<and>
   one_name_per_address (perform_all plain ops_fresh InstanceTable_new) \<and>
   perform_all (notifying plain) ops_fresh InstanceTable_new =
     perform_all plain ops_fresh InstanceTable_new \<and>
   m_AddressToNameMap (perform_all plain ops_fresh InstanceTable_new) 1 = Some ''a'' \<and>
   m_InstanceMap (perform_all plain ops_fresh InstanceTable_new) ''a'' = Some (Reference 1 cvY)"
proof -
  have "m_AddressToNameMap (perform_all plain ops_fresh InstanceTable_new) 1 = Some ''a''"
    and "m_InstanceMap (perform_all plain ops_fresh InstanceTable_new) ''a'' = Some (Reference 1 cvY)"
    by (simp_all add: ops_fresh_def SetObject_plain_eq DeleteObject_plain_eq
      SetDeleteFunction_def CreateTemporary_def DeleteCallBack_def InstanceTable_new_def
      sprintf_temp_0 cvX_def cvY_def TypeX_def TypeY_def Let_def)
  with maps_consistency [of plain ops_fresh plain] quiet_plain deleters_return_plain
    no_reuse_ops_fresh
  show ?thesis by simp
qed

end
